theory Spec2Isabelle
  imports Complex_Main "HOL-Library.Multiset"
begin

section \<open>The tiling run of main.py\<close>

text \<open>
  The script reads a list of polygon vertices (floats, modelled as reals) and two tile
  dimensions (integers, the number inputs have \<open>min_value=1\<close>), snaps the bounding box of
  the vertices to multiples of the tile size, enumerates the candidate cells, classifies
  each cell against the polygon and counts the tiles that are needed.

  The polygon operations come from the Shapely library, which is not part of the
  repository: the run takes them as a parameter of type \<open>geometry\<close>. The plotting code
  does not change any variable that the counting reads and is left out.
\<close>

subsection \<open>Data\<close>

type_synonym point = "real \<times> real"

text \<open>\<open>box(minx, miny, maxx, maxy)\<close> of Shapely.\<close>

type_synonym box = "real \<times> real \<times> real \<times> real"

text \<open>An entry \<open>((x0, y0), (i, j))\<close> of \<open>grid_cells\<close>.\<close>

type_synonym cell = "(int \<times> int) \<times> (int \<times> int)"

datatype status = fully_inside | partially_inside | outside

record geometry =
  is_valid :: "point list \<Rightarrow> bool"
  covers :: "point list \<Rightarrow> box \<Rightarrow> bool"
  intersects :: "point list \<Rightarrow> box \<Rightarrow> bool"
  intersection_area :: "point list \<Rightarrow> box \<Rightarrow> real"

text \<open>The three counters of the counting loop.\<close>

record counts =
  full_tile_count :: int
  partial_rollup_count :: int
  partial_fraction_pool :: real

text \<open>
  \<open>st.stop()\<close> ends the run after \<open>st.error\<close>; the model records which of the two
  checks stopped it and the value of \<open>grid_cells\<close> at that moment (\<open>None\<close> when the
  variable has not been assigned yet). \<open>Raised\<close> is an exception caught by the
  \<open>except Exception\<close> clause (a division by a zero tile dimension).
\<close>

datatype stop_reason = Too_Few_Vertices | Invalid_Geometry

datatype outcome =
    Stopped stop_reason "cell list option"
  | Raised
  | Finished "((int \<times> int) \<times> status) list" counts int

subsection \<open>Grid construction (lines 54 to 70)\<close>

text \<open>
  \<open>min(xs)\<close> and \<open>max(xs)\<close>; the run only evaluates them on a list of at least three
  elements.
\<close>

definition py_min :: "real list \<Rightarrow> real" where
  "py_min xs = fold min (tl xs) (hd xs)"

definition py_max :: "real list \<Rightarrow> real" where
  "py_max xs = fold max (tl xs) (hd xs)"

definition x_min :: "real \<Rightarrow> int \<Rightarrow> int" where
  "x_min min_xs tile_w = \<lfloor>min_xs / of_int tile_w\<rfloor> * tile_w"

definition x_max :: "real \<Rightarrow> int \<Rightarrow> int" where
  "x_max max_xs tile_w = \<lceil>max_xs / of_int tile_w\<rceil> * tile_w"

definition y_min :: "real \<Rightarrow> int \<Rightarrow> int" where
  "y_min min_ys tile_h = \<lfloor>min_ys / of_int tile_h\<rfloor> * tile_h"

definition y_max :: "real \<Rightarrow> int \<Rightarrow> int" where
  "y_max max_ys tile_h = \<lceil>max_ys / of_int tile_h\<rceil> * tile_h"

definition n_cols :: "real \<Rightarrow> real \<Rightarrow> int \<Rightarrow> int" where
  "n_cols min_xs max_xs tile_w = (x_max max_xs tile_w - x_min min_xs tile_w) div tile_w"

definition n_rows :: "real \<Rightarrow> real \<Rightarrow> int \<Rightarrow> int" where
  "n_rows min_ys max_ys tile_h = (y_max max_ys tile_h - y_min min_ys tile_h) div tile_h"

text \<open>
  The inner loop \<open>for j in range(n_rows)\<close> for one value of \<open>i\<close>, and the outer loop
  \<open>for i in range(n_cols)\<close>; \<open>range\<close> of a negative number is empty, as \<open>nat\<close> of it is 0.
\<close>

definition grid_column :: "int \<Rightarrow> int \<Rightarrow> int \<Rightarrow> int \<Rightarrow> nat \<Rightarrow> nat \<Rightarrow> cell list" where
  "grid_column xmin ymin tile_w tile_h rows i =
     map (\<lambda>j. ((xmin + int i * tile_w, ymin + int j * tile_h), (int i, int j))) [0..<rows]"

definition grid_loop :: "int \<Rightarrow> int \<Rightarrow> int \<Rightarrow> int \<Rightarrow> nat \<Rightarrow> nat \<Rightarrow> cell list" where
  "grid_loop xmin ymin tile_w tile_h cols rows =
     concat (map (grid_column xmin ymin tile_w tile_h rows) [0..<cols])"

definition grid_cells :: "real \<Rightarrow> real \<Rightarrow> real \<Rightarrow> real \<Rightarrow> int \<Rightarrow> int \<Rightarrow> cell list" where
  "grid_cells min_xs max_xs min_ys max_ys tile_w tile_h =
     grid_loop (x_min min_xs tile_w) (y_min min_ys tile_h) tile_w tile_h
       (nat (n_cols min_xs max_xs tile_w)) (nat (n_rows min_ys max_ys tile_h))"

text \<open>The number of candidate cells, \<open>n_cols * n_rows\<close>.\<close>

definition n_cells :: "real \<Rightarrow> real \<Rightarrow> real \<Rightarrow> real \<Rightarrow> int \<Rightarrow> int \<Rightarrow> int" where
  "n_cells min_xs max_xs min_ys max_ys tile_w tile_h =
     n_cols min_xs max_xs tile_w * n_rows min_ys max_ys tile_h"

subsection \<open>Classification (lines 77 to 86)\<close>

text \<open>\<open>t = box(x0, y0, x0 + tile_w, y0 + tile_h)\<close>\<close>

fun tile_box :: "int \<Rightarrow> int \<Rightarrow> cell \<Rightarrow> box" where
  "tile_box tile_w tile_h ((x0, y0), (i, j)) =
     (of_int x0, of_int y0, of_int (x0 + tile_w), of_int (y0 + tile_h))"

fun classify_tile :: "geometry \<Rightarrow> point list \<Rightarrow> int \<Rightarrow> int \<Rightarrow> cell \<Rightarrow> (int \<times> int) \<times> status" where
  "classify_tile g poly tile_w tile_h ((x0, y0), (i, j)) =
     (let t = tile_box tile_w tile_h ((x0, y0), (i, j)) in
      if covers g poly t then ((i, j), fully_inside)
      else if intersects g poly t then ((i, j), partially_inside)
      else ((i, j), outside))"

text \<open>The loop appends one entry to \<open>classified_tiles\<close> for each cell it visits.\<close>

fun classify_loop ::
  "geometry \<Rightarrow> point list \<Rightarrow> int \<Rightarrow> int \<Rightarrow> ((int \<times> int) \<times> status) list \<Rightarrow> cell list
     \<Rightarrow> ((int \<times> int) \<times> status) list" where
  "classify_loop g poly tile_w tile_h acc [] = acc"
| "classify_loop g poly tile_w tile_h acc (c # cs) =
     classify_loop g poly tile_w tile_h (acc @ [classify_tile g poly tile_w tile_h c]) cs"

definition classified_tiles ::
  "geometry \<Rightarrow> point list \<Rightarrow> int \<Rightarrow> int \<Rightarrow> cell list \<Rightarrow> ((int \<times> int) \<times> status) list" where
  "classified_tiles g poly tile_w tile_h cells = classify_loop g poly tile_w tile_h [] cells"

subsection \<open>Counting (lines 112 to 132)\<close>

text \<open>\<open>fraction = overlap_area / tile_area\<close> with \<open>tile_area = tile_w * tile_h\<close>.\<close>

definition fraction_of :: "geometry \<Rightarrow> point list \<Rightarrow> int \<Rightarrow> int \<Rightarrow> cell \<Rightarrow> real" where
  "fraction_of g poly tile_w tile_h c =
     intersection_area g poly (tile_box tile_w tile_h c) / of_int (tile_w * tile_h)"

text \<open>
  The branch taken for a partially inside cell of the given fraction. The pool is
  updated first and the test then adds the fraction once more.
\<close>

definition count_fraction :: "counts \<Rightarrow> real \<Rightarrow> counts" where
  "count_fraction s fraction =
     (if fraction \<ge> 55 / 100 then s\<lparr>full_tile_count := full_tile_count s + 1\<rparr>
      else if fraction \<noteq> 0 then
        (let s1 = s\<lparr>partial_fraction_pool := partial_fraction_pool s + fraction\<rparr> in
         if partial_fraction_pool s1 + fraction \<ge> 1
         then s1\<lparr>partial_rollup_count := partial_rollup_count s1 + 1,
                 partial_fraction_pool := 0\<rparr>
         else s1)
      else s)"

text \<open>One iteration of the counting loop.\<close>

definition count_step ::
  "geometry \<Rightarrow> point list \<Rightarrow> int \<Rightarrow> int \<Rightarrow> counts \<Rightarrow> cell \<times> status \<Rightarrow> counts" where
  "count_step g poly tile_w tile_h s p =
     (if snd p = fully_inside then s\<lparr>full_tile_count := full_tile_count s + 1\<rparr>
      else if snd p = partially_inside
        then count_fraction s (fraction_of g poly tile_w tile_h (fst p))
      else s)"

fun count_loop ::
  "geometry \<Rightarrow> point list \<Rightarrow> int \<Rightarrow> int \<Rightarrow> counts \<Rightarrow> (cell \<times> status) list \<Rightarrow> counts" where
  "count_loop g poly tile_w tile_h s [] = s"
| "count_loop g poly tile_w tile_h s (p # ps) =
     count_loop g poly tile_w tile_h (count_step g poly tile_w tile_h s p) ps"

definition init_counts :: counts where
  "init_counts = \<lparr>full_tile_count = 0, partial_rollup_count = 0, partial_fraction_pool = 0\<rparr>"

definition total_tile_count :: "counts \<Rightarrow> int" where
  "total_tile_count s =
     full_tile_count s + partial_rollup_count s + \<lceil>partial_fraction_pool s\<rceil>"

subsection \<open>The run (lines 47 to 141)\<close>

text \<open>
  The sequence the counting loop iterates over:
  \<open>zip(grid_cells, [s for (_, s) in classified_tiles])\<close>.
\<close>

definition counting_sequence ::
  "cell list \<Rightarrow> ((int \<times> int) \<times> status) list \<Rightarrow> (cell \<times> status) list" where
  "counting_sequence cells classified = zip cells (map snd classified)"

definition run_tiling :: "geometry \<Rightarrow> point list \<Rightarrow> int \<Rightarrow> int \<Rightarrow> outcome" where
  "run_tiling g vertices tile_w tile_h =
     (if length vertices < 3 then Stopped Too_Few_Vertices None
      else if tile_w = 0 \<or> tile_h = 0 then Raised
      else
        (let xs = map fst vertices;
             ys = map snd vertices;
             cells = grid_cells (py_min xs) (py_max xs) (py_min ys) (py_max ys) tile_w tile_h
         in if \<not> is_valid g vertices then Stopped Invalid_Geometry (Some cells)
            else
              (let classified = classified_tiles g vertices tile_w tile_h cells;
                   s = count_loop g vertices tile_w tile_h init_counts
                         (counting_sequence cells classified)
               in Finished classified s (total_tile_count s))))"

subsection \<open>The geometry of a rectangular polygon\<close>

text \<open>
  For a ring \<open>[(a, c), (b, c), (b, d), (a, d)]\<close> that is an axis-aligned rectangle with
  \<open>a \<le> b\<close> and \<open>c \<le> d\<close>, the four Shapely operations have a closed form: the ring is
  valid when it has positive area, it covers a box that lies within its bounds, it
  intersects a box that shares a point with it, and the area of the intersection is the
  product of the overlaps of the two pairs of intervals. \<open>rect_geometry\<close> is only used on
  such rings, in the concrete runs below.
\<close>

definition is_rect_ring :: "point list \<Rightarrow> bool" where
  "is_rect_ring vs =
     (case vs of
        [(a, c), (b, c'), (b', d), (a', d')] \<Rightarrow>
          a = a' \<and> b = b' \<and> c = c' \<and> d = d' \<and> a \<le> b \<and> c \<le> d
      | _ \<Rightarrow> False)"

definition rect_geometry :: geometry where
  "rect_geometry =
     \<lparr>is_valid = (\<lambda>vs. is_rect_ring vs
          \<and> py_min (map fst vs) < py_max (map fst vs)
          \<and> py_min (map snd vs) < py_max (map snd vs)),
      covers = (\<lambda>vs (x0, y0, x1, y1).
          py_min (map fst vs) \<le> x0 \<and> x1 \<le> py_max (map fst vs)
          \<and> py_min (map snd vs) \<le> y0 \<and> y1 \<le> py_max (map snd vs)),
      intersects = (\<lambda>vs (x0, y0, x1, y1).
          py_min (map fst vs) \<le> x1 \<and> x0 \<le> py_max (map fst vs)
          \<and> py_min (map snd vs) \<le> y1 \<and> y0 \<le> py_max (map snd vs)),
      intersection_area = (\<lambda>vs (x0, y0, x1, y1).
          max 0 (min x1 (py_max (map fst vs)) - max x0 (py_min (map fst vs)))
          * max 0 (min y1 (py_max (map snd vs)) - max y0 (py_min (map snd vs))))\<rparr>"

text \<open>The ring of the rectangle \<open>[a, b] \<times> [c, d]\<close>, counter-clockwise from \<open>(a, c)\<close>.\<close>

definition rect_ring :: "real \<Rightarrow> real \<Rightarrow> real \<Rightarrow> real \<Rightarrow> point list" where
  "rect_ring a b c d = [(a, c), (b, c), (b, d), (a, d)]"

subsection \<open>Predicates used in the statements\<close>

text \<open>The entries of the counting sequence that increment \<open>full_tile_count\<close>.\<close>

definition counted_full ::
  "geometry \<Rightarrow> point list \<Rightarrow> int \<Rightarrow> int \<Rightarrow> cell \<times> status \<Rightarrow> bool" where
  "counted_full g poly tile_w tile_h p \<longleftrightarrow>
     snd p = fully_inside \<or>
     (snd p = partially_inside \<and> fraction_of g poly tile_w tile_h (fst p) \<ge> 55 / 100)"

text \<open>The counters are non-negative and the pool is below one.\<close>

definition counts_ok :: "counts \<Rightarrow> bool" where
  "counts_ok s \<longleftrightarrow>
     0 \<le> full_tile_count s \<and> 0 \<le> partial_rollup_count s \<and>
     0 \<le> partial_fraction_pool s \<and> partial_fraction_pool s < 1"

section \<open>Auxiliary facts\<close>

subsection \<open>The classification loop is a map\<close>

lemma classify_loop_append:
  "classify_loop g poly tw th acc cs = acc @ map (classify_tile g poly tw th) cs"
  by (induction cs arbitrary: acc) simp_all

lemma classified_tiles_map:
  "classified_tiles g poly tw th cs = map (classify_tile g poly tw th) cs"
  by (simp add: classified_tiles_def classify_loop_append)

lemma classify_tile_eq:
  "classify_tile g poly tw th c =
     (snd c, if covers g poly (tile_box tw th c) then fully_inside
             else if intersects g poly (tile_box tw th c) then partially_inside
             else outside)"
proof -
  obtain x0 y0 i j where "c = ((x0, y0), (i, j))"
    by (metis surj_pair)
  then show ?thesis by (simp add: Let_def)
qed

subsection \<open>The order of the grid\<close>

lemma length_grid_column: "length (grid_column xm ym tw th rows i) = rows"
  by (simp add: grid_column_def)

lemma grid_loop_Suc:
  "grid_loop xm ym tw th (Suc n) rows =
     grid_loop xm ym tw th n rows @ grid_column xm ym tw th rows n"
  by (simp add: grid_loop_def)

lemma grid_loop_no_cols: "grid_loop xm ym tw th 0 rows = []"
  by (simp add: grid_loop_def)

lemma grid_loop_no_rows: "grid_loop xm ym tw th cols 0 = []"
  by (simp add: grid_loop_def grid_column_def)

lemma length_grid_loop: "length (grid_loop xm ym tw th cols rows) = cols * rows"
  by (induction cols) (simp_all add: grid_loop_Suc length_grid_column grid_loop_no_cols)

lemma index_bound:
  fixes i j n rows :: nat
  assumes "i < n" "j < rows"
  shows "i * rows + j < n * rows"
proof -
  have "i * rows + j < Suc i * rows" using assms by simp
  also have "\<dots> \<le> n * rows" using assms by (intro mult_le_mono1) simp
  finally show ?thesis .
qed

lemma nth_grid_loop:
  "i < cols \<Longrightarrow> j < rows \<Longrightarrow>
   grid_loop xm ym tw th cols rows ! (i * rows + j) =
     ((xm + int i * tw, ym + int j * th), (int i, int j))"
proof (induction cols)
  case 0
  then show ?case by simp
next
  case (Suc n)
  show ?case
  proof (cases "i < n")
    case True
    then have "i * rows + j < length (grid_loop xm ym tw th n rows)"
      using Suc.prems by (simp add: length_grid_loop index_bound)
    then show ?thesis
      using Suc.IH True Suc.prems by (simp add: grid_loop_Suc nth_append)
  next
    case False
    then have "i = n" using Suc.prems by simp
    then show ?thesis
      using Suc.prems
      by (simp add: grid_loop_Suc nth_append length_grid_loop grid_column_def)
  qed
qed

subsection \<open>The counters\<close>

lemma full_count_fraction:
  "full_tile_count (count_fraction s f) = full_tile_count s + (if f \<ge> 55 / 100 then 1 else 0)"
  by (simp add: count_fraction_def Let_def)

lemma full_count_step:
  "full_tile_count (count_step g poly tw th s p) =
     full_tile_count s + (if counted_full g poly tw th p then 1 else 0)"
  by (simp add: count_step_def counted_full_def full_count_fraction)

lemma full_count_loop:
  "full_tile_count (count_loop g poly tw th s ps) =
     full_tile_count s + int (length (filter (counted_full g poly tw th) ps))"
  by (induction ps arbitrary: s) (simp_all add: full_count_step)

text \<open>The counting loop is a left fold of \<open>count_step\<close> over the sequence it is given.\<close>

lemma count_loop_foldl:
  "count_loop g poly tw th s ps = foldl (count_step g poly tw th) s ps"
  by (induction ps arbitrary: s) simp_all

lemma filter_length_mset:
  "mset ps = mset qs \<Longrightarrow> length (filter P ps) = length (filter P qs)"
  by (metis mset_filter size_mset)

text \<open>
  What the pooling branch does: the pool has already received the fraction when it is
  tested, so the test compares the old pool plus twice the fraction with one.
\<close>

lemma count_fraction_pooled:
  assumes "0 < f" "f < 55 / 100"
  shows "count_fraction s f =
     (if partial_fraction_pool s + 2 * f \<ge> 1
      then s\<lparr>partial_rollup_count := partial_rollup_count s + 1, partial_fraction_pool := 0\<rparr>
      else s\<lparr>partial_fraction_pool := partial_fraction_pool s + f\<rparr>)"
  using assms by (simp add: count_fraction_def Let_def)

lemma pool_count_fraction:
  assumes "0 \<le> f" "f \<le> 1" "0 \<le> partial_fraction_pool s" "partial_fraction_pool s < 1"
  shows "0 \<le> partial_fraction_pool (count_fraction s f) \<and>
         partial_fraction_pool (count_fraction s f) < 1"
  using assms by (simp add: count_fraction_def Let_def)

lemma rollup_count_fraction:
  "partial_rollup_count s \<le> partial_rollup_count (count_fraction s f)"
  by (simp add: count_fraction_def Let_def)

lemma full_mono_fraction:
  "full_tile_count s \<le> full_tile_count (count_fraction s f)"
  by (simp add: count_fraction_def Let_def)

lemma counts_ok_step:
  assumes "counts_ok s"
    and "snd p = partially_inside \<Longrightarrow>
           0 \<le> fraction_of g poly tw th (fst p) \<and> fraction_of g poly tw th (fst p) \<le> 1"
  shows "counts_ok (count_step g poly tw th s p)"
proof (cases "snd p = partially_inside")
  case True
  let ?f = "fraction_of g poly tw th (fst p)"
  have f: "0 \<le> ?f" "?f \<le> 1" using assms(2) True by simp_all
  have "count_step g poly tw th s p = count_fraction s ?f"
    using True by (simp add: count_step_def)
  moreover have "counts_ok (count_fraction s ?f)"
    using assms(1) pool_count_fraction [OF f, of s]
      rollup_count_fraction [of s ?f] full_mono_fraction [of s ?f]
    by (simp add: counts_ok_def)
  ultimately show ?thesis by simp
next
  case False
  then show ?thesis using assms(1) by (simp add: count_step_def counts_ok_def)
qed

lemma counts_ok_loop:
  assumes "counts_ok s"
    and "\<forall>p \<in> set ps. snd p = partially_inside \<longrightarrow>
           0 \<le> fraction_of g poly tw th (fst p) \<and> fraction_of g poly tw th (fst p) \<le> 1"
  shows "counts_ok (count_loop g poly tw th s ps)"
  using assms
proof (induction ps arbitrary: s)
  case Nil
  then show ?case by simp
next
  case (Cons p ps)
  have "counts_ok (count_step g poly tw th s p)"
    using Cons.prems by (intro counts_ok_step) simp_all
  then show ?case using Cons by simp
qed

lemma ceiling_unit:
  fixes x :: real
  assumes "0 \<le> x" "x < 1"
  shows "\<lceil>x\<rceil> = (if x = 0 then 0 else 1)"
  using assms by (auto simp: ceiling_eq_iff)

subsection \<open>The number of columns and rows\<close>

lemma snapped_difference_div:
  fixes w :: int
  assumes "w \<noteq> 0"
  shows "(B * w - A * w) div w = B - A"
proof -
  have "B * w - A * w = (B - A) * w" by (simp add: left_diff_distrib)
  then show ?thesis using assms by simp
qed

lemma n_cols_eq:
  "w \<noteq> 0 \<Longrightarrow> n_cols a b w = \<lceil>b / of_int w\<rceil> - \<lfloor>a / of_int w\<rfloor>"
  by (simp add: n_cols_def x_min_def x_max_def snapped_difference_div)

lemma n_rows_n_cols: "n_rows c d h = n_cols c d h"
  by (simp add: n_rows_def n_cols_def y_min_def y_max_def x_min_def x_max_def)

lemma n_cols_nonneg:
  assumes "a \<le> b" "1 \<le> w"
  shows "0 \<le> n_cols a b w"
proof -
  have "a / of_int w \<le> b / of_int w" using assms by (simp add: divide_right_mono)
  then have "\<lfloor>a / of_int w\<rfloor> \<le> \<lceil>b / of_int w\<rceil>"
    by (meson floor_le_ceiling floor_mono order_trans)
  then show ?thesis using assms by (simp add: n_cols_eq)
qed

lemma floor_less_ceiling:
  fixes x y :: real
  assumes "x < y"
  shows "\<lfloor>x\<rfloor> < \<lceil>y\<rceil>"
proof -
  have "of_int \<lfloor>x\<rfloor> \<le> x" by simp
  also have "x < y" by fact
  also have "y \<le> of_int \<lceil>y\<rceil>" by simp
  finally show ?thesis by simp
qed

lemma floor_coarsen:
  fixes a :: real and k w :: int
  assumes "1 \<le> k"
  shows "\<lfloor>a / of_int (k * w)\<rfloor> = \<lfloor>a / of_int w\<rfloor> div k"
proof -
  have eq: "a / of_int (k * w) = (a / of_int w) / of_int k" by simp
  have "0 \<le> k" using assms by simp
  then have "\<lfloor>(a / of_int w) / of_int k\<rfloor> = \<lfloor>a / of_int w\<rfloor> div k"
    by (rule floor_divide_real_eq_div)
  then show ?thesis by (simp only: eq)
qed

lemma ceiling_coarsen:
  fixes b :: real and k w :: int
  assumes "1 \<le> k"
  shows "\<lceil>b / of_int (k * w)\<rceil> = - ((- \<lceil>b / of_int w\<rceil>) div k)"
proof -
  have "\<lceil>b / of_int (k * w)\<rceil> = - \<lfloor>(- b) / of_int (k * w)\<rfloor>"
    by (simp add: ceiling_def)
  also have "\<dots> = - (\<lfloor>(- b) / of_int w\<rfloor> div k)"
    using assms by (simp only: floor_coarsen)
  also have "\<lfloor>(- b) / of_int w\<rfloor> = - \<lceil>b / of_int w\<rceil>"
    by (simp add: ceiling_def)
  finally show ?thesis .
qed

text \<open>Merging \<open>k\<close> consecutive integer slots into one does not create slots.\<close>

lemma coarsen_int:
  fixes A B k :: int
  assumes "A < B" "1 \<le> k"
  shows "- ((- B) div k) - A div k \<le> B - A"
proof -
  define q where "q = A div k"
  define c where "c = - ((- B) div k)"
  have kpos: "0 < k" using assms by simp
  have "A = q * k + A mod k" by (simp add: q_def)
  moreover have "A mod k < k" using kpos by simp
  ultimately have A: "A \<le> q * k + k - 1" by linarith
  have "- B = (- c) * k + (- B) mod k" by (simp add: c_def)
  moreover have "(- B) mod k < k" using kpos by simp
  ultimately have B: "c * k - k + 1 \<le> B" by linarith
  show ?thesis
  proof (cases "c - q \<le> 1")
    case True
    then show ?thesis using assms unfolding q_def [symmetric] c_def [symmetric] by linarith
  next
    case False
    then have "0 \<le> c - q - 2" by simp
    then have "(c - q - 2) * 1 \<le> (c - q - 2) * k"
      using assms by (intro mult_left_mono) simp_all
    then have "c - q - 2 \<le> c * k - q * k - 2 * k" by (simp add: algebra_simps)
    then show ?thesis using A B unfolding q_def [symmetric] c_def [symmetric] by linarith
  qed
qed

lemma n_cols_coarsen:
  assumes "a < b" "1 \<le> w" "1 \<le> k"
  shows "n_cols a b (k * w) \<le> n_cols a b w"
proof -
  have w: "0 < (of_int w :: real)" using assms by simp
  have "a / of_int w < b / of_int w" using assms w by (simp add: divide_strict_right_mono)
  then have lt: "\<lfloor>a / of_int w\<rfloor> < \<lceil>b / of_int w\<rceil>" by (rule floor_less_ceiling)
  have kw: "k * w \<noteq> 0" using assms by simp
  have "n_cols a b (k * w) = - ((- \<lceil>b / of_int w\<rceil>) div k) - \<lfloor>a / of_int w\<rfloor> div k"
    using assms by (simp only: n_cols_eq [OF kw] floor_coarsen ceiling_coarsen)
  also have "\<dots> \<le> \<lceil>b / of_int w\<rceil> - \<lfloor>a / of_int w\<rfloor>"
    using lt assms by (intro coarsen_int)
  also have "\<dots> = n_cols a b w" using assms by (simp add: n_cols_eq)
  finally show ?thesis .
qed

lemma ceiling_minus_floor:
  fixes r :: real
  shows "\<lceil>r\<rceil> - \<lfloor>r\<rfloor> = (if of_int \<lfloor>r\<rfloor> = r then 0 else 1)"
  by (auto simp: ceiling_altdef)

lemma snapped_fixed:
  fixes x :: real and w :: int
  assumes "w \<noteq> 0"
  shows "of_int (\<lfloor>x / of_int w\<rfloor> * w) = x \<longleftrightarrow> of_int \<lfloor>x / of_int w\<rfloor> = x / of_int w"
proof -
  have nz: "(of_int w :: real) \<noteq> 0" using assms by simp
  show ?thesis
    unfolding of_int_mult nonzero_eq_divide_eq [OF nz] by (rule refl)
qed

lemma n_cols_degenerate:
  assumes "1 \<le> w"
  shows "n_cols x x w = (if of_int (x_min x w) = x then 0 else 1)"
proof -
  have w: "w \<noteq> 0" using assms by simp
  show ?thesis
    unfolding n_cols_eq [OF w] ceiling_minus_floor x_min_def snapped_fixed [OF w] ..
qed

text \<open>Snapping leaves a coordinate unchanged exactly when it is a multiple of the tile size.\<close>

lemma snapped_fixed_iff_multiple:
  fixes x :: real and w :: int
  assumes "w \<noteq> 0"
  shows "of_int (x_min x w) = x \<longleftrightarrow> (\<exists>k::int. x = of_int (k * w))"
proof
  assume "of_int (x_min x w) = x"
  then show "\<exists>k::int. x = of_int (k * w)" unfolding x_min_def by metis
next
  assume "\<exists>k::int. x = of_int (k * w)"
  then obtain k :: int where "x = of_int (k * w)" ..
  then show "of_int (x_min x w) = x" using assms by (simp add: x_min_def)
qed

subsection \<open>A rectangle that is one cell of the grid\<close>

lemma rect_ring_bounds:
  assumes "a \<le> b" "c \<le> d"
  shows "py_min (map fst (rect_ring a b c d)) = a" "py_max (map fst (rect_ring a b c d)) = b"
    "py_min (map snd (rect_ring a b c d)) = c" "py_max (map snd (rect_ring a b c d)) = d"
  using assms by (simp_all add: rect_ring_def py_min_def py_max_def)

lemma aligned_extent:
  assumes "1 \<le> w"
  shows "x_min (of_int (p * w)) w = p * w" "x_max (of_int (p * w)) w = p * w"
    "y_min (of_int (p * w)) w = p * w" "y_max (of_int (p * w)) w = p * w"
  using assms by (simp_all add: x_min_def x_max_def y_min_def y_max_def)

lemma aligned_grid:
  assumes "1 \<le> tw" "1 \<le> th"
  shows "grid_cells (of_int (p * tw)) (of_int ((p + 1) * tw))
           (of_int (q * th)) (of_int ((q + 1) * th)) tw th
     = [((p * tw, q * th), (0, 0))]"
proof -
  have c: "n_cols (of_int (p * tw)) (of_int ((p + 1) * tw)) tw = 1"
    using assms(1) unfolding n_cols_def aligned_extent [OF assms(1)]
    by (simp add: algebra_simps)
  have r: "n_rows (of_int (q * th)) (of_int ((q + 1) * th)) th = 1"
    using assms(2) unfolding n_rows_def aligned_extent [OF assms(2)]
    by (simp add: algebra_simps)
  show ?thesis
    unfolding grid_cells_def c r aligned_extent [OF assms(1)] aligned_extent [OF assms(2)]
    by (simp add: grid_loop_def grid_column_def)
qed

section \<open>The claims\<close>

subsection \<open>C1: when the pool rolls up\<close>

text \<open>
  Claim C1. For a partially inside cell whose fraction lies strictly between 0 and 0.55,
  the fraction is added to the pool, and the rollup counter is incremented (and the pool
  reset to 0) exactly when the pool before the step plus the fraction reaches 1.

  The code adds the fraction to the pool and then tests the new pool plus the fraction,
  so it compares the old pool plus twice the fraction with 1 (lemma
  \<open>count_fraction_pooled\<close>). The run below is the rectangle \<open>[0, 5] \<times> [0, 10]\<close> on
  tiles of 10 by 10: its only cell has fraction 1/2, the pool before the step is 0, and
  the sum 0 + 1/2 is below 1; the run nevertheless counts one rollup and leaves an
  empty pool.
\<close>

theorem pooled_half_tile_rolls_up:
  "fraction_of rect_geometry (rect_ring 0 5 0 10) 10 10 ((0, 0), (0, 0)) = 1 / 2 \<and>
   count_fraction init_counts (1 / 2) =
     \<lparr>full_tile_count = 0, partial_rollup_count = 1, partial_fraction_pool = 0\<rparr> \<and>
   run_tiling rect_geometry (rect_ring 0 5 0 10) 10 10 =
     Finished [((0, 0), partially_inside)]
       \<lparr>full_tile_count = 0, partial_rollup_count = 1, partial_fraction_pool = 0\<rparr> 1"
  by code_simp

subsection \<open>C2: the counts and the order of the cells\<close>

text \<open>
  Claim C2. The counts of the counting loop (full tiles, rollups, total) do not change
  when the classified cells are visited in another order.

  This fails for the rollups, the pool and the total. The rectangle
  \<open>[5, 14] \<times> [0, 24]\<close> on tiles of 10 by 10 has two columns of three partially inside
  cells, with fractions 1/2, 1/2, 1/5 in the first column and 2/5, 2/5, 4/25 in the
  second. In grid order (column by column) the loop ends with 3 rollups, a pool of 14/25
  and a total of 4; visiting the same cells row by row it ends with 2 rollups, a pool of
  19/25 and a total of 3.
\<close>

theorem counts_depend_on_order:
  "counting_sequence (grid_cells 5 14 0 24 10 10)
     (classified_tiles rect_geometry (rect_ring 5 14 0 24) 10 10 (grid_cells 5 14 0 24 10 10))
     = [(((0, 0), (0, 0)), partially_inside), (((0, 10), (0, 1)), partially_inside),
        (((0, 20), (0, 2)), partially_inside), (((10, 0), (1, 0)), partially_inside),
        (((10, 10), (1, 1)), partially_inside), (((10, 20), (1, 2)), partially_inside)] \<and>
   mset [(((0, 0), (0, 0)), partially_inside), (((10, 0), (1, 0)), partially_inside),
         (((0, 10), (0, 1)), partially_inside), (((10, 10), (1, 1)), partially_inside),
         (((0, 20), (0, 2)), partially_inside), (((10, 20), (1, 2)), partially_inside)]
     = mset [(((0::int, 0::int), (0::int, 0::int)), partially_inside),
         (((0, 10), (0, 1)), partially_inside), (((0, 20), (0, 2)), partially_inside),
         (((10, 0), (1, 0)), partially_inside), (((10, 10), (1, 1)), partially_inside),
         (((10, 20), (1, 2)), partially_inside)] \<and>
   count_loop rect_geometry (rect_ring 5 14 0 24) 10 10 init_counts
     [(((0, 0), (0, 0)), partially_inside), (((0, 10), (0, 1)), partially_inside),
      (((0, 20), (0, 2)), partially_inside), (((10, 0), (1, 0)), partially_inside),
      (((10, 10), (1, 1)), partially_inside), (((10, 20), (1, 2)), partially_inside)]
     = \<lparr>full_tile_count = 0, partial_rollup_count = 3, partial_fraction_pool = 14 / 25\<rparr> \<and>
   count_loop rect_geometry (rect_ring 5 14 0 24) 10 10 init_counts
     [(((0, 0), (0, 0)), partially_inside), (((10, 0), (1, 0)), partially_inside),
      (((0, 10), (0, 1)), partially_inside), (((10, 10), (1, 1)), partially_inside),
      (((0, 20), (0, 2)), partially_inside), (((10, 20), (1, 2)), partially_inside)]
     = \<lparr>full_tile_count = 0, partial_rollup_count = 2, partial_fraction_pool = 19 / 25\<rparr> \<and>
   total_tile_count
     \<lparr>full_tile_count = 0, partial_rollup_count = 3, partial_fraction_pool = 14 / 25\<rparr> = 4 \<and>
   total_tile_count
     \<lparr>full_tile_count = 0, partial_rollup_count = 2, partial_fraction_pool = 19 / 25\<rparr> = 3"
proof -
  have "counting_sequence (grid_cells 5 14 0 24 10 10)
     (classified_tiles rect_geometry (rect_ring 5 14 0 24) 10 10 (grid_cells 5 14 0 24 10 10))
     = [(((0, 0), (0, 0)), partially_inside), (((0, 10), (0, 1)), partially_inside),
        (((0, 20), (0, 2)), partially_inside), (((10, 0), (1, 0)), partially_inside),
        (((10, 10), (1, 1)), partially_inside), (((10, 20), (1, 2)), partially_inside)]"
    by code_simp
  moreover have
    "mset [(((0, 0), (0, 0)), partially_inside), (((10, 0), (1, 0)), partially_inside),
         (((0, 10), (0, 1)), partially_inside), (((10, 10), (1, 1)), partially_inside),
         (((0, 20), (0, 2)), partially_inside), (((10, 20), (1, 2)), partially_inside)]
     = mset [(((0::int, 0::int), (0::int, 0::int)), partially_inside),
         (((0, 10), (0, 1)), partially_inside), (((0, 20), (0, 2)), partially_inside),
         (((10, 0), (1, 0)), partially_inside), (((10, 10), (1, 1)), partially_inside),
         (((10, 20), (1, 2)), partially_inside)]"
    by (simp add: add_mset_commute)
  moreover have
    "count_loop rect_geometry (rect_ring 5 14 0 24) 10 10 init_counts
     [(((0, 0), (0, 0)), partially_inside), (((0, 10), (0, 1)), partially_inside),
      (((0, 20), (0, 2)), partially_inside), (((10, 0), (1, 0)), partially_inside),
      (((10, 10), (1, 1)), partially_inside), (((10, 20), (1, 2)), partially_inside)]
     = \<lparr>full_tile_count = 0, partial_rollup_count = 3, partial_fraction_pool = 14 / 25\<rparr>"
    by code_simp
  moreover have
    "count_loop rect_geometry (rect_ring 5 14 0 24) 10 10 init_counts
     [(((0, 0), (0, 0)), partially_inside), (((10, 0), (1, 0)), partially_inside),
      (((0, 10), (0, 1)), partially_inside), (((10, 10), (1, 1)), partially_inside),
      (((0, 20), (0, 2)), partially_inside), (((10, 20), (1, 2)), partially_inside)]
     = \<lparr>full_tile_count = 0, partial_rollup_count = 2, partial_fraction_pool = 19 / 25\<rparr>"
    by code_simp
  moreover have "total_tile_count
     \<lparr>full_tile_count = 0, partial_rollup_count = 3, partial_fraction_pool = 14 / 25\<rparr> = 4"
    by code_simp
  moreover have "total_tile_count
     \<lparr>full_tile_count = 0, partial_rollup_count = 2, partial_fraction_pool = 19 / 25\<rparr> = 3"
    by code_simp
  ultimately show ?thesis by (intro conjI)
qed

text \<open>
  Claim C2, amended. The number of full tiles does not depend on the order in which the
  classified cells are visited: two sequences with the same entries give the same
  \<open>full_tile_count\<close>, from any starting state.
\<close>

theorem full_count_order_independent:
  "mset ps = mset qs \<Longrightarrow>
   full_tile_count (count_loop g poly tile_w tile_h s ps) =
     full_tile_count (count_loop g poly tile_w tile_h s qs)"
  by (simp add: full_count_loop filter_length_mset [of ps qs])

theorem full_count_order_independent_witness:
  "mset [(((0, 0), (0, 0)), fully_inside), (((0, 10), (0, 1)), partially_inside)]
     = mset [(((0::int, 10::int), (0::int, 1::int)), partially_inside),
         (((0, 0), (0, 0)), fully_inside)] \<and>
   full_tile_count (count_loop rect_geometry (rect_ring 0 10 0 12) 10 10 init_counts
       [(((0, 0), (0, 0)), fully_inside), (((0, 10), (0, 1)), partially_inside)])
   = full_tile_count (count_loop rect_geometry (rect_ring 0 10 0 12) 10 10 init_counts
       [(((0, 10), (0, 1)), partially_inside), (((0, 0), (0, 0)), fully_inside)])"
proof -
  have h: "mset [(((0, 0), (0, 0)), fully_inside), (((0, 10), (0, 1)), partially_inside)]
     = mset [(((0::int, 10::int), (0::int, 1::int)), partially_inside),
         (((0, 0), (0, 0)), fully_inside)]"
    by simp
  show ?thesis
    using h full_count_order_independent [OF h] by simp
qed

subsection \<open>C3: an invalid polygon stops the run\<close>

text \<open>
  Claim C3. For every invalid polygon (fewer than three vertices, or a ring that is not
  geometrically valid, such as a self-intersecting or a zero-area ring) the run stops
  before any grid is constructed, so that no candidate cell is built.

  This fails for a ring of three or more vertices: the validity test comes after the
  loop that fills \<open>grid_cells\<close>. The ring \<open>(5, 0), (5, 0), (5, 10), (5, 10)\<close> has zero
  area; on tiles of 10 by 10 the run stops at the validity test with one cell built.
\<close>

theorem invalid_ring_stops_after_grid:
  "\<not> length (rect_ring 5 5 0 10) < 3 \<and>
   \<not> is_valid rect_geometry (rect_ring 5 5 0 10) \<and>
   run_tiling rect_geometry (rect_ring 5 5 0 10) 10 10 =
     Stopped Invalid_Geometry (Some [((0, 0), (0, 0))])"
  by code_simp

text \<open>
  Claim C3, amended. A polygon of fewer than three vertices stops the run before
  \<open>grid_cells\<close> is assigned. A polygon of three or more vertices that is not
  geometrically valid stops the run (for tile dimensions other than zero) after the
  candidate cells of its bounding box have been built, and before any cell is classified
  or counted.
\<close>

theorem invalid_polygon_stops:
  "(length vertices < 3 \<longrightarrow>
      run_tiling g vertices tile_w tile_h = Stopped Too_Few_Vertices None) \<and>
   (3 \<le> length vertices \<and> tile_w \<noteq> 0 \<and> tile_h \<noteq> 0 \<and> \<not> is_valid g vertices \<longrightarrow>
      run_tiling g vertices tile_w tile_h =
        Stopped Invalid_Geometry
          (Some (grid_cells (py_min (map fst vertices)) (py_max (map fst vertices))
                   (py_min (map snd vertices)) (py_max (map snd vertices)) tile_w tile_h)))"
  by (simp add: run_tiling_def Let_def)

theorem invalid_polygon_stops_witness:
  "length [(0, 0), (10, 10 :: real)] < 3 \<and>
   run_tiling rect_geometry [(0, 0), (10, 10)] 10 10 = Stopped Too_Few_Vertices None \<and>
   3 \<le> length (rect_ring 0 10 3 3) \<and> (10 :: int) \<noteq> 0 \<and>
   \<not> is_valid rect_geometry (rect_ring 0 10 3 3) \<and>
   run_tiling rect_geometry (rect_ring 0 10 3 3) 10 10 =
     Stopped Invalid_Geometry (Some (grid_cells 0 10 3 3 10 10)) \<and>
   grid_cells 0 10 3 3 10 10 = [((0, 0), (0, 0))]"
proof -
  have a: "length [(0, 0), (10, 10 :: real)] < 3" by simp
  have b: "3 \<le> length (rect_ring 0 10 3 3) \<and> (10 :: int) \<noteq> 0 \<and> (10 :: int) \<noteq> 0 \<and>
      \<not> is_valid rect_geometry (rect_ring 0 10 3 3)"
    by (simp add: rect_geometry_def rect_ring_def py_min_def py_max_def)
  have m: "py_min (map fst (rect_ring 0 10 3 3)) = 0" "py_max (map fst (rect_ring 0 10 3 3)) = 10"
    "py_min (map snd (rect_ring 0 10 3 3)) = 3" "py_max (map snd (rect_ring 0 10 3 3)) = 3"
    by (simp_all add: rect_ring_bounds)
  have c: "grid_cells 0 10 3 3 10 10 = [((0, 0), (0, 0))]" by code_simp
  have "run_tiling rect_geometry [(0, 0), (10, 10)] 10 10 = Stopped Too_Few_Vertices None"
    using a invalid_polygon_stops [of "[(0, 0), (10, 10)]" rect_geometry 10 10] by blast
  moreover have "run_tiling rect_geometry (rect_ring 0 10 3 3) 10 10 =
      Stopped Invalid_Geometry (Some (grid_cells 0 10 3 3 10 10))"
    using b invalid_polygon_stops [of "rect_ring 0 10 3 3" rect_geometry 10 10]
    unfolding m by blast
  ultimately show ?thesis using a b c by simp
qed

subsection \<open>C4: the number of cells and the tile size\<close>

text \<open>
  Claim C4. For a fixed bounding box, increasing \<open>tile_w\<close> or \<open>tile_h\<close> never
  increases the number of candidate cells \<open>n_cols * n_rows\<close>.

  This fails, since the grid is anchored at the multiples of the tile size: the box
  \<open>[2, 4] \<times> [0, 1]\<close> has one cell for tiles of 2 by 1 (the column from 2 to 4) and two
  cells for tiles of 3 by 1 (the columns from 0 to 3 and from 3 to 6).
\<close>

theorem wider_tile_more_cells:
  "(2 :: int) \<le> 3 \<and> n_cells 2 4 0 1 2 1 = 1 \<and> n_cells 2 4 0 1 3 1 = 2 \<and>
   \<not> n_cells 2 4 0 1 3 1 \<le> n_cells 2 4 0 1 2 1"
  by code_simp

text \<open>
  Claim C4, amended. For a bounding box of positive width and height, replacing
  \<open>tile_w\<close> by a positive integer multiple of \<open>tile_w\<close> and \<open>tile_h\<close> by a positive
  integer multiple of \<open>tile_h\<close> never increases the number of candidate cells.
\<close>

theorem coarser_grid_fewer_cells:
  assumes "min_xs < max_xs" "min_ys < max_ys" "1 \<le> tile_w" "1 \<le> tile_h" "1 \<le> k" "1 \<le> m"
  shows "n_cells min_xs max_xs min_ys max_ys (k * tile_w) (m * tile_h)
           \<le> n_cells min_xs max_xs min_ys max_ys tile_w tile_h"
proof -
  have mh: "1 \<le> m * tile_h"
    using assms mult_mono [of 1 m 1 tile_h] by simp
  have "n_cols min_xs max_xs (k * tile_w) \<le> n_cols min_xs max_xs tile_w"
    using assms by (intro n_cols_coarsen)
  moreover have "n_rows min_ys max_ys (m * tile_h) \<le> n_rows min_ys max_ys tile_h"
    using assms by (simp only: n_rows_n_cols n_cols_coarsen)
  moreover have "0 \<le> n_cols min_xs max_xs tile_w"
    using assms by (intro n_cols_nonneg) simp_all
  moreover have "0 \<le> n_rows min_ys max_ys (m * tile_h)"
    using assms mh by (simp add: n_rows_n_cols n_cols_nonneg)
  ultimately show ?thesis
    unfolding n_cells_def by (intro mult_mono) simp_all
qed

theorem coarser_grid_fewer_cells_witness:
  "(0 :: real) < 300 \<and> (1 :: int) \<le> 100 \<and> (1 :: int) \<le> 2 \<and> (1 :: int) \<le> 3 \<and>
   n_cells 0 300 0 300 (2 * 100) (3 * 100) \<le> n_cells 0 300 0 300 100 100 \<and>
   n_cells 0 300 0 300 (2 * 100) (3 * 100) = 2 \<and> n_cells 0 300 0 300 100 100 = 9"
proof -
  have v: "n_cells 0 300 0 300 (2 * 100) (3 * 100) = 2" "n_cells 0 300 0 300 100 100 = 9"
    by code_simp+
  have "n_cells 0 300 0 300 (2 * 100) (3 * 100) \<le> n_cells 0 300 0 300 100 100"
    by (rule coarser_grid_fewer_cells) simp_all
  then show ?thesis using v by simp
qed

subsection \<open>C5: a rectangle of the size of one tile\<close>

text \<open>
  Claim C5. For every axis-aligned rectangle whose dimensions are those of one tile,
  the run yields one full tile, no rollup, an empty pool and a total of one tile.

  This fails for a rectangle that does not lie on the grid: the square
  \<open>[100, 300] \<times> [100, 300]\<close> on tiles of 200 by 200 meets four cells, each with
  fraction 1/4; the run counts no full tile, one rollup, a pool of 1/4 and a total of 2.
\<close>

theorem offset_tile_sized_rectangle:
  "rect_ring 100 300 100 300 = [(100, 100), (300, 100), (300, 300), (100, 300)] \<and>
   is_valid rect_geometry (rect_ring 100 300 100 300) \<and>
   run_tiling rect_geometry (rect_ring 100 300 100 300) 200 200 =
     Finished
       [((0, 0), partially_inside), ((0, 1), partially_inside),
        ((1, 0), partially_inside), ((1, 1), partially_inside)]
       \<lparr>full_tile_count = 0, partial_rollup_count = 1, partial_fraction_pool = 1 / 4\<rparr> 2"
  by code_simp

text \<open>
  Claim C5, amended. For every polygon whose bounding box is one cell of the grid, that
  is \<open>[p * tile_w, (p + 1) * tile_w] \<times> [q * tile_h, (q + 1) * tile_h]\<close> for integers
  \<open>p\<close> and \<open>q\<close>, and every geometry for which the polygon is valid and covers that
  cell, the run yields one full tile, no rollup, an empty pool and a total of one tile.
  This is every axis-aligned rectangle that coincides with one cell, whichever corner
  its vertex list starts from and in either orientation.
\<close>

theorem grid_aligned_tile_rectangle:
  assumes "1 \<le> tile_w" "1 \<le> tile_h" "3 \<le> length vertices"
    and "py_min (map fst vertices) = of_int (p * tile_w)"
    and "py_max (map fst vertices) = of_int ((p + 1) * tile_w)"
    and "py_min (map snd vertices) = of_int (q * tile_h)"
    and "py_max (map snd vertices) = of_int ((q + 1) * tile_h)"
    and "is_valid g vertices"
    and "covers g vertices (tile_box tile_w tile_h ((p * tile_w, q * tile_h), (0, 0)))"
  shows "run_tiling g vertices tile_w tile_h =
     Finished [((0, 0), fully_inside)]
       \<lparr>full_tile_count = 1, partial_rollup_count = 0, partial_fraction_pool = 0\<rparr> 1"
proof -
  have cells: "grid_cells (py_min (map fst vertices)) (py_max (map fst vertices))
       (py_min (map snd vertices)) (py_max (map snd vertices)) tile_w tile_h
     = [((p * tile_w, q * tile_h), (0, 0))]"
    unfolding assms(4-7) by (rule aligned_grid [OF assms(1,2)])
  have len: "\<not> length vertices < 3" using assms(3) by simp
  have nz: "\<not> (tile_w = 0 \<or> tile_h = 0)" using assms(1,2) by simp
  show ?thesis
    unfolding run_tiling_def Let_def cells if_not_P [OF len] if_not_P [OF nz]
    using assms(8,9)
    by (simp add: classified_tiles_def counting_sequence_def count_step_def init_counts_def
        total_tile_count_def Let_def)
qed

theorem grid_aligned_tile_rectangle_witness:
  "(1 :: int) \<le> 200 \<and> (1 :: int) \<le> 100 \<and> 3 \<le> length (rect_ring 400 600 (- 100) 0) \<and>
   py_min (map fst (rect_ring 400 600 (- 100) 0)) = of_int (2 * 200) \<and>
   py_max (map fst (rect_ring 400 600 (- 100) 0)) = of_int ((2 + 1) * 200) \<and>
   py_min (map snd (rect_ring 400 600 (- 100) 0)) = of_int (- 1 * 100) \<and>
   py_max (map snd (rect_ring 400 600 (- 100) 0)) = of_int ((- 1 + 1) * 100) \<and>
   is_valid rect_geometry (rect_ring 400 600 (- 100) 0) \<and>
   covers rect_geometry (rect_ring 400 600 (- 100) 0)
     (tile_box 200 100 ((2 * 200, - 1 * 100), (0, 0))) \<and>
   run_tiling rect_geometry (rect_ring 400 600 (- 100) 0) 200 100 =
     Finished [((0, 0), fully_inside)]
       \<lparr>full_tile_count = 1, partial_rollup_count = 0, partial_fraction_pool = 0\<rparr> 1"
proof -
  have l: "3 \<le> length (rect_ring 400 600 (- 100) 0)" by (simp add: rect_ring_def)
  have b: "py_min (map fst (rect_ring 400 600 (- 100) 0)) = of_int (2 * 200)"
    "py_max (map fst (rect_ring 400 600 (- 100) 0)) = of_int ((2 + 1) * 200)"
    "py_min (map snd (rect_ring 400 600 (- 100) 0)) = of_int (- 1 * 100)"
    "py_max (map snd (rect_ring 400 600 (- 100) 0)) = of_int ((- 1 + 1) * 100)"
    by (simp_all add: rect_ring_bounds)
  have i: "is_valid rect_geometry (rect_ring 400 600 (- 100) 0)" by code_simp
  have c: "covers rect_geometry (rect_ring 400 600 (- 100) 0)
     (tile_box 200 100 ((2 * 200, - 1 * 100), (0, 0)))" by code_simp
  have "run_tiling rect_geometry (rect_ring 400 600 (- 100) 0) 200 100 =
     Finished [((0, 0), fully_inside)]
       \<lparr>full_tile_count = 1, partial_rollup_count = 0, partial_fraction_pool = 0\<rparr> 1"
    by (rule grid_aligned_tile_rectangle [OF _ _ l b i c]) simp_all
  with l b i c show ?thesis by (intro conjI) simp_all
qed

subsection \<open>C6: a bounding box of zero width or height\<close>

text \<open>
  Claim C6. For every polygon whose bounding box has zero width or zero height, the grid
  has no cell in that dimension, so the set of candidate cells is empty.

  This fails when the common coordinate is not a multiple of the tile size: for the
  vertices \<open>(100, 0), (100, 100), (100, 200)\<close> and tiles of 200 by 200 the extent in
  \<open>x\<close> is snapped to 0 and 200, which gives one column and one candidate cell.
\<close>

theorem zero_width_box_has_a_column:
  "py_min (map fst [(100, 0), (100, 100), (100, 200 :: real)]) = 100 \<and>
   py_max (map fst [(100, 0), (100, 100), (100, 200 :: real)]) = 100 \<and>
   n_cols 100 100 200 = 1 \<and>
   grid_cells 100 100 0 200 200 200 = [((0, 0), (0, 0))]"
  by code_simp

text \<open>
  Claim C6, amended. For a bounding box of zero width, the grid has no column (and no
  candidate cell) when the common \<open>x\<close> is a multiple of \<open>tile_w\<close>, that is when snapping
  leaves it unchanged, and exactly one column otherwise; the same holds for a box of zero
  height, its common \<open>y\<close>, \<open>tile_h\<close> and the rows.
\<close>

theorem degenerate_box_columns_and_rows:
  assumes "1 \<le> tile_w" "1 \<le> tile_h"
  shows "n_cols x x tile_w = (if of_int (x_min x tile_w) = x then 0 else 1) \<and>
         n_rows y y tile_h = (if of_int (y_min y tile_h) = y then 0 else 1) \<and>
         (of_int (x_min x tile_w) = x \<longrightarrow> grid_cells x x min_ys max_ys tile_w tile_h = []) \<and>
         (of_int (y_min y tile_h) = y \<longrightarrow> grid_cells min_xs max_xs y y tile_w tile_h = [])"
proof -
  have c: "n_cols x x tile_w = (if of_int (x_min x tile_w) = x then 0 else 1)"
    using assms(1) by (rule n_cols_degenerate)
  have r: "n_rows y y tile_h = (if of_int (y_min y tile_h) = y then 0 else 1)"
    using n_cols_degenerate [OF assms(2), of y]
    by (simp add: n_rows_n_cols y_min_def x_min_def)
  show ?thesis
    using c r by (simp add: grid_cells_def grid_loop_no_cols grid_loop_no_rows)
qed

theorem degenerate_box_columns_and_rows_witness:
  "(1 :: int) \<le> 200 \<and> of_int (x_min 400 200) = (400 :: real) \<and>
   of_int (y_min 100 200) \<noteq> (100 :: real) \<and>
   n_cols 400 400 200 = 0 \<and> n_rows 100 100 200 = 1 \<and>
   grid_cells 400 400 0 200 200 200 = []"
proof -
  have a: "(1 :: int) \<le> 200" by simp
  have x: "of_int (x_min 400 200) = (400 :: real)" by code_simp
  have y: "of_int (y_min 100 200) \<noteq> (100 :: real)" by code_simp
  show ?thesis
    using a x y degenerate_box_columns_and_rows [OF a a, of 400 100 0 200 0 0]
    by simp
qed

subsection \<open>C7: the classification\<close>

text \<open>
  Claim C7. The classification has exactly one entry for each input cell, in the same
  order, and the status of a cell is decided by testing containment before intersection:
  fully inside when the polygon covers the tile, otherwise partially inside when the
  polygon intersects the tile, otherwise outside. A cell that the polygon covers is never
  classified as partially inside.
\<close>

theorem classification_per_cell:
  "length (classified_tiles g poly tile_w tile_h cells) = length cells \<and>
   (\<forall>k < length cells.
      fst (classified_tiles g poly tile_w tile_h cells ! k) = snd (cells ! k) \<and>
      snd (classified_tiles g poly tile_w tile_h cells ! k) =
        (if covers g poly (tile_box tile_w tile_h (cells ! k)) then fully_inside
         else if intersects g poly (tile_box tile_w tile_h (cells ! k)) then partially_inside
         else outside) \<and>
      (covers g poly (tile_box tile_w tile_h (cells ! k)) \<longrightarrow>
         snd (classified_tiles g poly tile_w tile_h cells ! k) \<noteq> partially_inside))"
  by (simp add: classified_tiles_map classify_tile_eq)

theorem classification_per_cell_witness:
  "grid_cells 0 400 0 250 200 200 =
     [((0, 0), (0, 0)), ((0, 200), (0, 1)), ((200, 0), (1, 0)), ((200, 200), (1, 1))] \<and>
   covers rect_geometry (rect_ring 0 400 0 250) (tile_box 200 200 ((200, 0), (1, 0))) \<and>
   intersects rect_geometry (rect_ring 0 400 0 250) (tile_box 200 200 ((200, 0), (1, 0))) \<and>
   classified_tiles rect_geometry (rect_ring 0 400 0 250) 200 200
       (grid_cells 0 400 0 250 200 200) ! 2 = ((1, 0), fully_inside) \<and>
   \<not> covers rect_geometry (rect_ring 0 400 0 250) (tile_box 200 200 ((200, 200), (1, 1))) \<and>
   classified_tiles rect_geometry (rect_ring 0 400 0 250) 200 200
       (grid_cells 0 400 0 250 200 200) ! 3 = ((1, 1), partially_inside) \<and>
   length (classified_tiles rect_geometry (rect_ring 0 400 0 250) 200 200
       (grid_cells 0 400 0 250 200 200)) = 4"
proof -
  let ?cells = "[((0, 0), (0, 0)), ((0, 200), (0, 1)), ((200, 0), (1, 0)), ((200, 200), (1, 1))]
     :: cell list"
  have g: "grid_cells 0 400 0 250 200 200 = ?cells" by code_simp
  have c: "covers rect_geometry (rect_ring 0 400 0 250) (tile_box 200 200 ((200, 0), (1, 0)))"
    "intersects rect_geometry (rect_ring 0 400 0 250) (tile_box 200 200 ((200, 0), (1, 0)))"
    "\<not> covers rect_geometry (rect_ring 0 400 0 250) (tile_box 200 200 ((200, 200), (1, 1)))"
    "intersects rect_geometry (rect_ring 0 400 0 250) (tile_box 200 200 ((200, 200), (1, 1)))"
    by code_simp+
  note t = classification_per_cell [of rect_geometry "rect_ring 0 400 0 250" 200 200 ?cells]
  show ?thesis
    using c t [THEN conjunct1] t [THEN conjunct2, THEN spec, of 2]
      t [THEN conjunct2, THEN spec, of 3]
    unfolding g by (simp add: prod_eq_iff)
qed

subsection \<open>C8: a fraction of exactly 0.55\<close>

text \<open>
  Claim C8. A partially inside cell whose fraction is exactly 0.55 is counted as a full
  tile and is not added to the pool; when it is the only cell, the counters end at one
  full tile, no rollup and an empty pool.
\<close>

theorem threshold_fraction_counts_as_full:
  assumes "snd p = partially_inside"
    and "fraction_of g poly tile_w tile_h (fst p) = 55 / 100"
  shows "count_step g poly tile_w tile_h s p = s\<lparr>full_tile_count := full_tile_count s + 1\<rparr> \<and>
         partial_fraction_pool (count_step g poly tile_w tile_h s p) = partial_fraction_pool s \<and>
         count_loop g poly tile_w tile_h init_counts [p] =
           \<lparr>full_tile_count = 1, partial_rollup_count = 0, partial_fraction_pool = 0\<rparr>"
  using assms by (simp add: count_step_def count_fraction_def init_counts_def)

theorem threshold_fraction_counts_as_full_witness:
  "fraction_of rect_geometry (rect_ring 0 11 0 10) 20 10 ((0, 0), (0, 0)) = 55 / 100 \<and>
   run_tiling rect_geometry (rect_ring 0 11 0 10) 20 10 =
     Finished [((0, 0), partially_inside)]
       \<lparr>full_tile_count = 1, partial_rollup_count = 0, partial_fraction_pool = 0\<rparr> 1 \<and>
   count_loop rect_geometry (rect_ring 0 11 0 10) 20 10 init_counts
       [(((0, 0), (0, 0)), partially_inside)] =
     \<lparr>full_tile_count = 1, partial_rollup_count = 0, partial_fraction_pool = 0\<rparr>"
proof -
  let ?p = "(((0, 0), (0, 0)), partially_inside) :: cell \<times> status"
  have f0: "fraction_of rect_geometry (rect_ring 0 11 0 10) 20 10 ((0, 0), (0, 0)) = 55 / 100"
    by code_simp
  have f: "fraction_of rect_geometry (rect_ring 0 11 0 10) 20 10 (fst ?p) = 55 / 100"
    using f0 by simp
  have r: "run_tiling rect_geometry (rect_ring 0 11 0 10) 20 10 =
     Finished [((0, 0), partially_inside)]
       \<lparr>full_tile_count = 1, partial_rollup_count = 0, partial_fraction_pool = 0\<rparr> 1"
    by code_simp
  have sp: "snd ?p = partially_inside"
    by simp
  have c: "count_loop rect_geometry (rect_ring 0 11 0 10) 20 10 init_counts [?p] =
     \<lparr>full_tile_count = 1, partial_rollup_count = 0, partial_fraction_pool = 0\<rparr>"
    by (rule threshold_fraction_counts_as_full
        [OF sp f, of init_counts, THEN conjunct2, THEN conjunct2])
  from f0 r c show ?thesis by (intro conjI)
qed

subsection \<open>C9: the pool stays below one\<close>

text \<open>
  Claim C9. When the fraction of every partially inside cell lies between 0 and 1, the
  pool lies in \<open>[0, 1)\<close> after every step of the counting loop, so the final pool lies in
  \<open>[0, 1)\<close>, its ceiling is 0 (for an empty pool) or 1, the numbers of full tiles and of
  rollups are not negative, and the total is their sum plus the ceiling of the pool.
\<close>

theorem pool_stays_below_one:
  assumes "\<forall>p \<in> set ps. snd p = partially_inside \<longrightarrow>
           0 \<le> fraction_of g poly tile_w tile_h (fst p) \<and>
           fraction_of g poly tile_w tile_h (fst p) \<le> 1"
  shows "(\<forall>n \<le> length ps.
            0 \<le> partial_fraction_pool (count_loop g poly tile_w tile_h init_counts (take n ps)) \<and>
            partial_fraction_pool (count_loop g poly tile_w tile_h init_counts (take n ps)) < 1) \<and>
         0 \<le> partial_fraction_pool (count_loop g poly tile_w tile_h init_counts ps) \<and>
         partial_fraction_pool (count_loop g poly tile_w tile_h init_counts ps) < 1 \<and>
         \<lceil>partial_fraction_pool (count_loop g poly tile_w tile_h init_counts ps)\<rceil> =
           (if partial_fraction_pool (count_loop g poly tile_w tile_h init_counts ps) = 0
            then 0 else 1) \<and>
         0 \<le> full_tile_count (count_loop g poly tile_w tile_h init_counts ps) \<and>
         0 \<le> partial_rollup_count (count_loop g poly tile_w tile_h init_counts ps) \<and>
         total_tile_count (count_loop g poly tile_w tile_h init_counts ps) =
           full_tile_count (count_loop g poly tile_w tile_h init_counts ps)
           + partial_rollup_count (count_loop g poly tile_w tile_h init_counts ps)
           + \<lceil>partial_fraction_pool (count_loop g poly tile_w tile_h init_counts ps)\<rceil> \<and>
         0 \<le> total_tile_count (count_loop g poly tile_w tile_h init_counts ps)"
proof -
  have init: "counts_ok init_counts" by (simp add: counts_ok_def init_counts_def)
  have pre: "counts_ok (count_loop g poly tile_w tile_h init_counts (take n ps))" for n
  proof (rule counts_ok_loop [OF init])
    show "\<forall>p \<in> set (take n ps). snd p = partially_inside \<longrightarrow>
           0 \<le> fraction_of g poly tile_w tile_h (fst p) \<and>
           fraction_of g poly tile_w tile_h (fst p) \<le> 1"
      using assms by (meson in_set_takeD)
  qed
  have fin: "counts_ok (count_loop g poly tile_w tile_h init_counts ps)"
    using pre [of "length ps"] by simp
  have steps: "\<forall>n \<le> length ps.
      0 \<le> partial_fraction_pool (count_loop g poly tile_w tile_h init_counts (take n ps)) \<and>
      partial_fraction_pool (count_loop g poly tile_w tile_h init_counts (take n ps)) < 1"
    using pre by (simp add: counts_ok_def)
  show ?thesis
    using steps fin by (simp add: counts_ok_def total_tile_count_def ceiling_unit)
qed

theorem pool_stays_below_one_witness:
  "fraction_of rect_geometry (rect_ring 0 5 0 22) 10 10 ((0, 0), (0, 0)) = 1 / 2 \<and>
   fraction_of rect_geometry (rect_ring 0 5 0 22) 10 10 ((0, 10), (0, 1)) = 1 / 2 \<and>
   fraction_of rect_geometry (rect_ring 0 5 0 22) 10 10 ((0, 20), (0, 2)) = 1 / 10 \<and>
   count_loop rect_geometry (rect_ring 0 5 0 22) 10 10 init_counts
     [(((0, 0), (0, 0)), partially_inside), (((0, 10), (0, 1)), partially_inside),
      (((0, 20), (0, 2)), partially_inside)] =
     \<lparr>full_tile_count = 0, partial_rollup_count = 2, partial_fraction_pool = 1 / 10\<rparr> \<and>
   partial_fraction_pool (count_loop rect_geometry (rect_ring 0 5 0 22) 10 10 init_counts
     [(((0, 0), (0, 0)), partially_inside), (((0, 10), (0, 1)), partially_inside),
      (((0, 20), (0, 2)), partially_inside)]) < 1 \<and>
   total_tile_count (count_loop rect_geometry (rect_ring 0 5 0 22) 10 10 init_counts
     [(((0, 0), (0, 0)), partially_inside), (((0, 10), (0, 1)), partially_inside),
      (((0, 20), (0, 2)), partially_inside)]) = 0 + 2 + 1"
proof -
  let ?ps = "[(((0, 0), (0, 0)), partially_inside), (((0, 10), (0, 1)), partially_inside),
      (((0, 20), (0, 2)), partially_inside)] :: (cell \<times> status) list"
  have f: "fraction_of rect_geometry (rect_ring 0 5 0 22) 10 10 ((0, 0), (0, 0)) = 1 / 2"
    "fraction_of rect_geometry (rect_ring 0 5 0 22) 10 10 ((0, 10), (0, 1)) = 1 / 2"
    "fraction_of rect_geometry (rect_ring 0 5 0 22) 10 10 ((0, 20), (0, 2)) = 1 / 10"
    by code_simp+
  have h: "\<forall>p \<in> set ?ps. snd p = partially_inside \<longrightarrow>
           0 \<le> fraction_of rect_geometry (rect_ring 0 5 0 22) 10 10 (fst p) \<and>
           fraction_of rect_geometry (rect_ring 0 5 0 22) 10 10 (fst p) \<le> 1"
    by (simp add: f)
  have v: "count_loop rect_geometry (rect_ring 0 5 0 22) 10 10 init_counts ?ps =
     \<lparr>full_tile_count = 0, partial_rollup_count = 2, partial_fraction_pool = 1 / 10\<rparr>"
    by code_simp
  note t = pool_stays_below_one [OF h]
  have "partial_fraction_pool
      (count_loop rect_geometry (rect_ring 0 5 0 22) 10 10 init_counts ?ps) < 1"
    using t by blast
  moreover have "total_tile_count
      (count_loop rect_geometry (rect_ring 0 5 0 22) 10 10 init_counts ?ps) = 0 + 2 + 1"
    using t unfolding v by simp
  ultimately show ?thesis using f v by simp
qed

subsection \<open>C10: one order for the grid, the classification and the counting\<close>

text \<open>
  Claim C10. The grid is built column by column: the cell of column \<open>i\<close> and row \<open>j\<close> is
  at position \<open>i * n_rows + j\<close>, so every cell of a column comes before every cell of a
  later column and the rows of a column come in increasing order. The classification
  keeps the order of the cells it is given, the counting sequence pairs each cell with its
  status in that order, the counting loop is a left fold of \<open>count_step\<close> over its
  sequence, and a run that reaches the counting applies this fold, from the initial
  counters, to the counting sequence of the grid cells: the rollover of the pool is
  applied in the order of grid construction.
\<close>

theorem column_major_order:
  "length (grid_cells min_xs max_xs min_ys max_ys tile_w tile_h) =
     nat (n_cols min_xs max_xs tile_w) * nat (n_rows min_ys max_ys tile_h) \<and>
   (\<forall>i < nat (n_cols min_xs max_xs tile_w). \<forall>j < nat (n_rows min_ys max_ys tile_h).
      grid_cells min_xs max_xs min_ys max_ys tile_w tile_h
          ! (i * nat (n_rows min_ys max_ys tile_h) + j) =
        ((x_min min_xs tile_w + int i * tile_w, y_min min_ys tile_h + int j * tile_h),
         (int i, int j))) \<and>
   (\<forall>i i' j j'. i < i' \<and> j < nat (n_rows min_ys max_ys tile_h) \<longrightarrow>
      i * nat (n_rows min_ys max_ys tile_h) + j < i' * nat (n_rows min_ys max_ys tile_h) + j') \<and>
   map fst (classified_tiles g poly tile_w tile_h cells) = map snd cells \<and>
   map fst (counting_sequence cells (classified_tiles g poly tile_w tile_h cells)) = cells \<and>
   map snd (counting_sequence cells (classified_tiles g poly tile_w tile_h cells)) =
     map snd (classified_tiles g poly tile_w tile_h cells) \<and>
   count_loop g poly tile_w tile_h s ps = foldl (count_step g poly tile_w tile_h) s ps \<and>
   (3 \<le> length poly \<and> tile_w \<noteq> 0 \<and> tile_h \<noteq> 0 \<and> is_valid g poly \<and>
    cells = grid_cells (py_min (map fst poly)) (py_max (map fst poly))
              (py_min (map snd poly)) (py_max (map snd poly)) tile_w tile_h \<longrightarrow>
    run_tiling g poly tile_w tile_h =
      Finished (classified_tiles g poly tile_w tile_h cells)
        (foldl (count_step g poly tile_w tile_h) init_counts
           (counting_sequence cells (classified_tiles g poly tile_w tile_h cells)))
        (total_tile_count
           (foldl (count_step g poly tile_w tile_h) init_counts
              (counting_sequence cells (classified_tiles g poly tile_w tile_h cells)))))"
proof -
  have order: "i * r + j < i' * r + j'" if "i < i'" "j < r" for i i' j j' r :: nat
    using index_bound [OF that] by simp
  have idx: "map fst (classified_tiles g poly tile_w tile_h cells) = map snd cells"
    by (simp add: classified_tiles_map classify_tile_eq comp_def)
  have len: "length (map snd (classified_tiles g poly tile_w tile_h cells)) = length cells"
    by (simp add: classified_tiles_map)
  have sq: "map fst (counting_sequence cells (classified_tiles g poly tile_w tile_h cells)) = cells"
    "map snd (counting_sequence cells (classified_tiles g poly tile_w tile_h cells)) =
       map snd (classified_tiles g poly tile_w tile_h cells)"
    unfolding counting_sequence_def using len by (simp_all only: map_fst_zip map_snd_zip)
  have g1: "length (grid_cells min_xs max_xs min_ys max_ys tile_w tile_h) =
     nat (n_cols min_xs max_xs tile_w) * nat (n_rows min_ys max_ys tile_h)"
    by (simp add: grid_cells_def length_grid_loop)
  have g2: "\<forall>i < nat (n_cols min_xs max_xs tile_w). \<forall>j < nat (n_rows min_ys max_ys tile_h).
      grid_cells min_xs max_xs min_ys max_ys tile_w tile_h
          ! (i * nat (n_rows min_ys max_ys tile_h) + j) =
        ((x_min min_xs tile_w + int i * tile_w, y_min min_ys tile_h + int j * tile_h),
         (int i, int j))"
    by (simp add: grid_cells_def nth_grid_loop)
  have g3: "\<forall>i i' j j'. i < i' \<and> j < nat (n_rows min_ys max_ys tile_h) \<longrightarrow>
      i * nat (n_rows min_ys max_ys tile_h) + j < i' * nat (n_rows min_ys max_ys tile_h) + j'"
    using order by simp
  have run: "3 \<le> length poly \<and> tile_w \<noteq> 0 \<and> tile_h \<noteq> 0 \<and> is_valid g poly \<and>
    cells = grid_cells (py_min (map fst poly)) (py_max (map fst poly))
              (py_min (map snd poly)) (py_max (map snd poly)) tile_w tile_h \<longrightarrow>
    run_tiling g poly tile_w tile_h =
      Finished (classified_tiles g poly tile_w tile_h cells)
        (foldl (count_step g poly tile_w tile_h) init_counts
           (counting_sequence cells (classified_tiles g poly tile_w tile_h cells)))
        (total_tile_count
           (foldl (count_step g poly tile_w tile_h) init_counts
              (counting_sequence cells (classified_tiles g poly tile_w tile_h cells))))"
    by (simp add: run_tiling_def Let_def count_loop_foldl)
  show ?thesis
    using g1 g2 g3 idx sq count_loop_foldl [of g poly tile_w tile_h s ps] run
    by (intro conjI)
qed

theorem column_major_order_witness:
  "nat (n_cols 5 14 10) = 2 \<and> nat (n_rows 0 24 10) = 3 \<and>
   length (grid_cells 5 14 0 24 10 10) = 6 \<and>
   grid_cells 5 14 0 24 10 10 ! (0 * 3 + 2) = ((0, 20), (0, 2)) \<and>
   grid_cells 5 14 0 24 10 10 ! (1 * 3 + 0) = ((10, 0), (1, 0)) \<and>
   run_tiling rect_geometry (rect_ring 5 14 0 24) 10 10 =
     Finished
       [((0, 0), partially_inside), ((0, 1), partially_inside), ((0, 2), partially_inside),
        ((1, 0), partially_inside), ((1, 1), partially_inside), ((1, 2), partially_inside)]
       \<lparr>full_tile_count = 0, partial_rollup_count = 3, partial_fraction_pool = 14 / 25\<rparr> 4 \<and>
   foldl (count_step rect_geometry (rect_ring 5 14 0 24) 10 10) init_counts
       [(((0, 0), (0, 0)), partially_inside), (((10, 0), (1, 0)), partially_inside),
        (((0, 10), (0, 1)), partially_inside), (((10, 10), (1, 1)), partially_inside),
        (((0, 20), (0, 2)), partially_inside), (((10, 20), (1, 2)), partially_inside)] =
     \<lparr>full_tile_count = 0, partial_rollup_count = 2, partial_fraction_pool = 19 / 25\<rparr>"
proof -
  let ?poly = "rect_ring 5 14 0 24"
  let ?cells = "grid_cells (py_min (map fst ?poly)) (py_max (map fst ?poly))
      (py_min (map snd ?poly)) (py_max (map snd ?poly)) 10 10"
  have n: "nat (n_cols 5 14 10) = 2" "nat (n_rows 0 24 10) = 3"
    "x_min 5 10 = 0" "y_min 0 10 = 0"
    by code_simp+
  have h: "3 \<le> length ?poly \<and> (10 :: int) \<noteq> 0 \<and> (10 :: int) \<noteq> 0 \<and>
      is_valid rect_geometry ?poly \<and> ?cells = ?cells"
    by code_simp
  note t = column_major_order [of 5 14 0 24 10 10 rect_geometry ?poly ?cells init_counts "[]"]
  have len: "length (grid_cells 5 14 0 24 10 10) = 6"
    using t [THEN conjunct1] unfolding n by simp
  have p2: "grid_cells 5 14 0 24 10 10 ! (0 * 3 + 2) = ((0, 20), (0, 2))"
    using t [THEN conjunct2, THEN conjunct1, rule_format, of 0 2] unfolding n by simp
  have p3: "grid_cells 5 14 0 24 10 10 ! (1 * 3 + 0) = ((10, 0), (1, 0))"
    using t [THEN conjunct2, THEN conjunct1, rule_format, of 1 0] unfolding n by simp
  have r: "run_tiling rect_geometry ?poly 10 10 =
      Finished (classified_tiles rect_geometry ?poly 10 10 ?cells)
        (foldl (count_step rect_geometry ?poly 10 10) init_counts
           (counting_sequence ?cells (classified_tiles rect_geometry ?poly 10 10 ?cells)))
        (total_tile_count
           (foldl (count_step rect_geometry ?poly 10 10) init_counts
              (counting_sequence ?cells (classified_tiles rect_geometry ?poly 10 10 ?cells))))"
    using h t by blast
  have e: "Finished (classified_tiles rect_geometry ?poly 10 10 ?cells)
        (foldl (count_step rect_geometry ?poly 10 10) init_counts
           (counting_sequence ?cells (classified_tiles rect_geometry ?poly 10 10 ?cells)))
        (total_tile_count
           (foldl (count_step rect_geometry ?poly 10 10) init_counts
              (counting_sequence ?cells (classified_tiles rect_geometry ?poly 10 10 ?cells))))
     = Finished
       [((0, 0), partially_inside), ((0, 1), partially_inside), ((0, 2), partially_inside),
        ((1, 0), partially_inside), ((1, 1), partially_inside), ((1, 2), partially_inside)]
       \<lparr>full_tile_count = 0, partial_rollup_count = 3, partial_fraction_pool = 14 / 25\<rparr> 4"
    by code_simp
  have rm: "foldl (count_step rect_geometry (rect_ring 5 14 0 24) 10 10) init_counts
       [(((0, 0), (0, 0)), partially_inside), (((10, 0), (1, 0)), partially_inside),
        (((0, 10), (0, 1)), partially_inside), (((10, 10), (1, 1)), partially_inside),
        (((0, 20), (0, 2)), partially_inside), (((10, 20), (1, 2)), partially_inside)] =
     \<lparr>full_tile_count = 0, partial_rollup_count = 2, partial_fraction_pool = 19 / 25\<rparr>"
    by code_simp
  from n(1,2) len p2 p3 r [unfolded e] rm show ?thesis by (intro conjI)
qed

end
